theory Spec2Isabelle
  imports Main
begin

section \<open>The image inventory endpoint (src/pages/api/images.ts)\<close>

text \<open>
  The endpoint has two parts: \<open>getImageFiles\<close>, which walks a directory tree and returns
  one descriptor per image file, and \<open>handler\<close>, which answers a request from a
  process-wide cache or from a new scan. Both are embedded below as pure functions. The
  filesystem is an explicit value, the two module variables \<open>cachedImages\<close> and
  \<open>cacheTimestamp\<close> are a record passed in and returned, and \<open>Date.now()\<close> is an
  argument.
\<close>

subsection \<open>Strings and the host path convention\<close>

text \<open>
  Strings are byte lists (UTF-8). The characters the code inspects (dot, slash, backslash
  and the ASCII letters of the extension table) are single bytes that never occur inside
  a multi-byte sequence, so working on bytes agrees with the code's work on UTF-16 units.

  Node's \<open>path\<close> module follows the host: \<open>path.join\<close> inserts a forward slash on a
  POSIX host and a backslash on a Windows host.
\<close>

datatype host = Posix | Win32

definition slash :: char where
  "slash = CHR ''/''"

definition backslash :: char where
  "backslash = CHR 0x5C"

fun sep :: "host \<Rightarrow> char" where
  "sep Posix = slash"
| "sep Win32 = backslash"

text \<open>
  \<open>path.join(a, b)\<close> for a non-empty relative path \<open>a\<close> built from entry names and an
  entry name \<open>b\<close>. Names returned by \<open>readdirSync\<close> are never empty, never \<open>.\<close> or
  \<open>..\<close> and hold no separator of the host, so the normalisation step of \<open>path.join\<close>
  leaves the joined string as it is.
\<close>

definition path_join :: "host \<Rightarrow> string \<Rightarrow> string \<Rightarrow> string" where
  "path_join h a b = a @ sep h # b"

text \<open>
  \<open>path.extname(name)\<close> for an entry name: the part from the last dot to the end; empty
  when there is no dot, when the only dot is the first character (a dot file such as
  \<open>.png\<close>) and for the name \<open>..\<close>.
\<close>

definition extname :: "string \<Rightarrow> string" where
  "extname n =
     (let after = rev (takeWhile (\<lambda>c. c \<noteq> CHR ''.'') (rev n)) in
      if CHR ''.'' \<notin> set n then []
      else if Suc (length after) = length n then []
      else if n = ''..'' then []
      else CHR ''.'' # after)"

text \<open>
  \<open>String.prototype.toLowerCase\<close>, on the ASCII letters. The lower-case form of a
  character outside ASCII is never one of the ASCII letters of the extension table, so
  the membership test below does not depend on how such characters are mapped.
\<close>

definition toLowerChar :: "char \<Rightarrow> char" where
  "toLowerChar c =
     (case map_of (zip ''ABCDEFGHIJKLMNOPQRSTUVWXYZ'' ''abcdefghijklmnopqrstuvwxyz'') c of
        Some l \<Rightarrow> l
      | None \<Rightarrow> c)"

definition toLowerCase :: "string \<Rightarrow> string" where
  "toLowerCase s = map toLowerChar s"

text \<open>\<open>s.replace(/\\/g, "/")\<close>: every backslash becomes a forward slash.\<close>

definition replace_backslashes :: "string \<Rightarrow> string" where
  "replace_backslashes s = map (\<lambda>c. if c = backslash then slash else c) s"

subsection \<open>The filesystem as the scanner sees it\<close>

text \<open>
  A directory entry is a name with what the \<open>Dirent\<close> and the later calls on its full
  path report:
  \<^item> \<open>RegFile st\<close>: \<open>isFile()\<close> holds; \<open>fs.statSync\<close> returns the size \<open>sz\<close> when
    \<open>st = Some sz\<close> and throws when \<open>st = None\<close>;
  \<^item> \<open>Directory r\<close>: \<open>isDirectory()\<close> holds; \<open>fs.readdirSync\<close> returns the listing
    \<open>items\<close> when \<open>r = Some items\<close> and throws when \<open>r = None\<close>;
  \<^item> \<open>Special\<close>: neither holds (symbolic link, socket, FIFO, device).

  The tree stands for the full paths: the node stored under a name answers the calls on
  \<open>path.join(dirPath, item.name)\<close>. Limits of the engine (depth of the call stack,
  number of arguments of \<open>push\<close>) are not part of the model.
\<close>

datatype fsnode =
    RegFile "nat option"
  | Directory "(string \<times> fsnode) list option"
  | Special

text \<open>The interface \<open>ImageData\<close>; the field \<open>size\<close> is written \<open>size'\<close>.\<close>

record ImageData =
  name :: string
  url :: string
  path :: string
  directory :: string
  size' :: nat

subsection \<open>getImageFiles\<close>

definition imageExtensions :: "string list" where
  "imageExtensions = [''.jpg'', ''.jpeg'', ''.png'', ''.gif'', ''.webp'', ''.svg'']"

text \<open>The label of the scan root, the UTF-8 bytes of the three characters in the source.\<close>

definition root_label :: string where
  "root_label = [CHR 0xE6, CHR 0xA0, CHR 0xB9, CHR 0xE7, CHR 0x9B, CHR 0xAE,
                 CHR 0xE5, CHR 0xBD, CHR 0x95]"

text \<open>\<open>relativePath ? path.join(relativePath, item.name) : item.name\<close>\<close>

definition relativeItemPath :: "host \<Rightarrow> string \<Rightarrow> string \<Rightarrow> string" where
  "relativeItemPath h relativePath n =
     (if relativePath \<noteq> [] then path_join h relativePath n else n)"

text \<open>The object pushed for an image file.\<close>

definition image_entry :: "host \<Rightarrow> string \<Rightarrow> string \<Rightarrow> nat \<Rightarrow> ImageData" where
  "image_entry h relativePath n sz =
     \<lparr> name = n,
       url = ''/images/'' @ replace_backslashes (relativeItemPath h relativePath n),
       path = relativeItemPath h relativePath n,
       directory = (if relativePath \<noteq> [] then relativePath else root_label),
       size' = sz \<rparr>"

text \<open>
  \<open>getImageFiles h d relativePath\<close> is the call on the directory whose node is \<open>d\<close>;
  \<open>scan_items\<close> is the \<open>for\<close> loop over the rest of the listing and returns what the
  loop still appends to \<open>images\<close>. The \<open>try\<close> block spans the whole loop and the
  \<open>catch\<close> only logs, so
  \<^item> a throwing \<open>readdirSync\<close> returns the empty \<open>images\<close>;
  \<^item> a throwing \<open>statSync\<close> leaves the loop: what was pushed before stays, nothing
    more is appended (the \<open>None\<close> case below);
  \<^item> a recursive call never throws, it returns a list.

  On a node that is not a directory \<open>readdirSync\<close> throws as well; the loop never
  makes such a call, only the images directory itself can be such a node.
\<close>

fun getImageFiles :: "host \<Rightarrow> fsnode \<Rightarrow> string \<Rightarrow> ImageData list"
and scan_items :: "host \<Rightarrow> string \<Rightarrow> (string \<times> fsnode) list \<Rightarrow> ImageData list" where
  "getImageFiles h (Directory (Some items)) relativePath = scan_items h relativePath items"
| "getImageFiles h (Directory None) relativePath = []"
| "getImageFiles h (RegFile st) relativePath = []"
| "getImageFiles h Special relativePath = []"
| "scan_items h relativePath [] = []"
| "scan_items h relativePath ((n, Directory r) # rest) =
     getImageFiles h (Directory r) (relativeItemPath h relativePath n)
       @ scan_items h relativePath rest"
| "scan_items h relativePath ((n, RegFile st) # rest) =
     (if toLowerCase (extname n) \<in> set imageExtensions then
        (case st of
           None \<Rightarrow> []
         | Some sz \<Rightarrow> image_entry h relativePath n sz # scan_items h relativePath rest)
      else scan_items h relativePath rest)"
| "scan_items h relativePath ((n, Special) # rest) = scan_items h relativePath rest"

subsection \<open>handler\<close>

record cache =
  cachedImages :: "ImageData list option"
  cacheTimestamp :: int

definition initial_cache :: cache where
  "initial_cache = \<lparr> cachedImages = None, cacheTimestamp = 0 \<rparr>"

definition CACHE_DURATION :: int where
  "CACHE_DURATION = 30 * 1000"

datatype body =
    Images "ImageData list"
  | Message string
  | ErrorMessage string string

record response =
  status :: nat
  headers :: "(string \<times> string) list"
  body :: body

definition ok_response :: "ImageData list \<Rightarrow> response" where
  "ok_response images =
     \<lparr> status = 200,
       headers = [(''Cache-Control'', ''public, max-age=30, s-maxage=30'')],
       body = Images images \<rparr>"

definition method_not_allowed :: response where
  "method_not_allowed = \<lparr> status = 405, headers = [], body = Message ''Method not allowed'' \<rparr>"

definition error_response :: "string \<Rightarrow> response" where
  "error_response err =
     \<lparr> status = 500, headers = [],
       body = ErrorMessage ''Error reading images directory'' err \<rparr>"

text \<open>
  \<open>handler_try\<close> is the body of \<open>handler\<close> with the call of the scanner as a
  parameter \<open>scan\<close>, whose result is \<open>Inr images\<close> or \<open>Inl err\<close> when the call throws:
  this keeps the \<open>catch\<close> branch of the source in the model. The images directory is
  \<open>None\<close> when \<open>fs.existsSync\<close> is false and \<open>Some root\<close> otherwise, \<open>root\<close>
  being the node the scanner finds there. The request method is \<open>None\<close> when
  \<open>req.method\<close> is undefined. The result is the response with the new values of the
  two module variables.
\<close>

definition handler_try ::
  "(fsnode \<Rightarrow> string + ImageData list) \<Rightarrow> fsnode option \<Rightarrow> cache \<Rightarrow> string option \<Rightarrow> int
     \<Rightarrow> response \<times> cache" where
  "handler_try scan imagesDirectory c method now =
     (if method \<noteq> Some ''GET'' then (method_not_allowed, c)
      else if cachedImages c \<noteq> None \<and> now - cacheTimestamp c < CACHE_DURATION then
        (ok_response (the (cachedImages c)), c)
      else
        (case imagesDirectory of
           None \<Rightarrow> (ok_response [], \<lparr> cachedImages = Some [], cacheTimestamp = now \<rparr>)
         | Some root \<Rightarrow>
             (case scan root of
                Inl err \<Rightarrow> (error_response err, c)
              | Inr images \<Rightarrow>
                  (ok_response images, \<lparr> cachedImages = Some images, cacheTimestamp = now \<rparr>))))"

text \<open>The handler of the source: the scanner is \<open>getImageFiles\<close>, which returns a list.\<close>

definition handler ::
  "host \<Rightarrow> fsnode option \<Rightarrow> cache \<Rightarrow> string option \<Rightarrow> int \<Rightarrow> response \<times> cache" where
  "handler h = handler_try (\<lambda>root. Inr (getImageFiles h root []))"

section \<open>Notions of the specification\<close>

subsection \<open>Case-insensitive extension test\<close>

text \<open>
  The specification compares the extension with the allow-list without regard to case;
  the code lower-cases the extension and looks it up in the table.
\<close>

definition equal_ignoring_case :: "string \<Rightarrow> string \<Rightarrow> bool" where
  "equal_ignoring_case a b = (toLowerCase a = toLowerCase b)"

definition has_image_extension :: "string \<Rightarrow> bool" where
  "has_image_extension n = list_ex (equal_ignoring_case (extname n)) imageExtensions"

subsection \<open>Directory listings of a filesystem\<close>

text \<open>
  An entry name of a real listing is not empty, is not \<open>.\<close> or \<open>..\<close> and holds no
  separator; a listing holds no name twice.
\<close>

definition valid_name :: "host \<Rightarrow> string \<Rightarrow> bool" where
  "valid_name h n =
     (n \<noteq> [] \<and> n \<noteq> ''.'' \<and> n \<noteq> ''..'' \<and> slash \<notin> set n \<and> sep h \<notin> set n)"

fun valid_names :: "host \<Rightarrow> fsnode \<Rightarrow> bool"
and valid_listing :: "host \<Rightarrow> (string \<times> fsnode) list \<Rightarrow> bool" where
  "valid_names h (Directory (Some items)) = valid_listing h items"
| "valid_names h (Directory None) = True"
| "valid_names h (RegFile st) = True"
| "valid_names h Special = True"
| "valid_listing h [] = True"
| "valid_listing h ((n, node) # rest) =
     (valid_name h n \<and> valid_names h node \<and> valid_listing h rest)"

fun distinct_names :: "fsnode \<Rightarrow> bool"
and distinct_listing :: "(string \<times> fsnode) list \<Rightarrow> bool" where
  "distinct_names (Directory (Some items)) = distinct_listing items"
| "distinct_names (Directory None) = True"
| "distinct_names (RegFile st) = True"
| "distinct_names Special = True"
| "distinct_listing [] = True"
| "distinct_listing ((n, node) # rest) =
     (n \<notin> set (map fst rest) \<and> distinct_names node \<and> distinct_listing rest)"

text \<open>A tree is readable when every \<open>readdirSync\<close> and every \<open>statSync\<close> in it succeeds.\<close>

fun readable :: "fsnode \<Rightarrow> bool"
and readable_listing :: "(string \<times> fsnode) list \<Rightarrow> bool" where
  "readable (Directory (Some items)) = readable_listing items"
| "readable (Directory None) = False"
| "readable (RegFile st) = (st \<noteq> None)"
| "readable Special = True"
| "readable_listing [] = True"
| "readable_listing ((n, node) # rest) = (readable node \<and> readable_listing rest)"

subsection \<open>The files of a tree and their expected descriptors\<close>

text \<open>Names joined by the separator of the host.\<close>

fun join_names :: "host \<Rightarrow> string list \<Rightarrow> string" where
  "join_names h [] = []"
| "join_names h [n] = n"
| "join_names h (n # m # ms) = n @ sep h # join_names h (m # ms)"

text \<open>Names joined by a given character.\<close>

fun join_with :: "char \<Rightarrow> string list \<Rightarrow> string" where
  "join_with c [] = []"
| "join_with c [n] = n"
| "join_with c (n # m # ms) = n @ c # join_with c (m # ms)"

text \<open>
  A regular file of the tree: the names of the folders from the scan root down to the
  folder that holds it, its base name and its byte length.
\<close>

record tree_file =
  folder :: "string list"
  base :: string
  bytes :: nat

fun files_of :: "string list \<Rightarrow> fsnode \<Rightarrow> tree_file list"
and files_of_listing :: "string list \<Rightarrow> (string \<times> fsnode) list \<Rightarrow> tree_file list" where
  "files_of ds (Directory (Some items)) = files_of_listing ds items"
| "files_of ds (Directory None) = []"
| "files_of ds (RegFile st) = []"
| "files_of ds Special = []"
| "files_of_listing ds [] = []"
| "files_of_listing ds ((n, Directory r) # rest) =
     files_of (ds @ [n]) (Directory r) @ files_of_listing ds rest"
| "files_of_listing ds ((n, RegFile st) # rest) =
     (case st of
        None \<Rightarrow> files_of_listing ds rest
      | Some sz \<Rightarrow> \<lparr> folder = ds, base = n, bytes = sz \<rparr> # files_of_listing ds rest)"
| "files_of_listing ds ((n, Special) # rest) = files_of_listing ds rest"

text \<open>The descriptor the specification asks for a file.\<close>

definition expected_descriptor :: "host \<Rightarrow> tree_file \<Rightarrow> ImageData" where
  "expected_descriptor h f =
     \<lparr> name = base f,
       url = ''/images/'' @ replace_backslashes (join_names h (folder f @ [base f])),
       path = join_names h (folder f @ [base f]),
       directory = (if folder f = [] then root_label else join_names h (folder f)),
       size' = bytes f \<rparr>"

text \<open>
  The name that follows the prefix \<open>relativePath\<close> in a path produced below it; used to
  tell the descriptors of two entries of one listing apart.
\<close>

definition first_component :: "host \<Rightarrow> string \<Rightarrow> string \<Rightarrow> string" where
  "first_component h rel p =
     takeWhile (\<lambda>c. c \<noteq> sep h) (drop (if rel = [] then 0 else Suc (length rel)) p)"

text \<open>A tree with every unreadable subdirectory taken out of its listing.\<close>

fun without_unreadable :: "fsnode \<Rightarrow> fsnode"
and without_unreadable_listing :: "(string \<times> fsnode) list \<Rightarrow> (string \<times> fsnode) list" where
  "without_unreadable (Directory (Some items)) = Directory (Some (without_unreadable_listing items))"
| "without_unreadable (Directory None) = Directory None"
| "without_unreadable (RegFile st) = RegFile st"
| "without_unreadable Special = Special"
| "without_unreadable_listing [] = []"
| "without_unreadable_listing ((n, Directory None) # rest) = without_unreadable_listing rest"
| "without_unreadable_listing ((n, Directory (Some items)) # rest) =
     (n, without_unreadable (Directory (Some items))) # without_unreadable_listing rest"
| "without_unreadable_listing ((n, RegFile st) # rest) =
     (n, RegFile st) # without_unreadable_listing rest"
| "without_unreadable_listing ((n, Special) # rest) =
     (n, Special) # without_unreadable_listing rest"

subsection \<open>Example data\<close>

text \<open>
  The scenario of the specification (\<open>a.png\<close> of 10 bytes at the root, a folder \<open>b\<close>
  with \<open>c.jpg\<close> of 20 bytes and \<open>notes.txt\<close>), with one more image three folders deep.
\<close>

definition example_tree :: fsnode where
  "example_tree =
     Directory (Some
       [(''a.png'', RegFile (Some 10)),
        (''b'', Directory (Some
           [(''c.jpg'', RegFile (Some 20)), (''notes.txt'', RegFile (Some 5))])),
        (''x'', Directory (Some [(''y'', Directory (Some [(''z'', Directory (Some
           [(''deep.GIF'', RegFile (Some 30))]))]))]))])"

definition a_png :: ImageData where
  "a_png = \<lparr> name = ''a.png'', url = ''/images/a.png'', path = ''a.png'',
             directory = root_label, size' = 10 \<rparr>"

definition c_jpg :: ImageData where
  "c_jpg = \<lparr> name = ''c.jpg'', url = ''/images/b/c.jpg'', path = ''b/c.jpg'',
             directory = ''b'', size' = 20 \<rparr>"

text \<open>The descriptor of \<open>c.jpg\<close> as a Windows host builds it.\<close>

definition c_jpg_win :: ImageData where
  "c_jpg_win = \<lparr> name = ''c.jpg'', url = ''/images/b/c.jpg'',
                 path = ''b'' @ CHR 0x5C # ''c.jpg'', directory = ''b'', size' = 20 \<rparr>"

definition deep_gif :: ImageData where
  "deep_gif = \<lparr> name = ''deep.GIF'', url = ''/images/x/y/z/deep.GIF'',
                path = ''x/y/z/deep.GIF'', directory = ''x/y/z'', size' = 30 \<rparr>"

section \<open>Properties\<close>

subsection \<open>Requests with another method\<close>

text \<open>
  C8. A request whose method is not GET is answered with status 405 whatever the cache,
  the time and the filesystem are, and the cache is returned as it was: the answer is
  fixed before the cache or the filesystem is looked at.
\<close>

theorem handler_rejects_other_methods:
  "method \<noteq> Some ''GET'' \<Longrightarrow>
     handler h imagesDirectory c method now = (method_not_allowed, c)
     \<and> status (fst (handler h imagesDirectory c method now)) = 405"
  by (simp add: handler_def handler_try_def method_not_allowed_def)

theorem handler_rejects_other_methods_witness:
  "Some ''POST'' \<noteq> Some ''GET''
     \<and> handler Posix (Some (Directory (Some [(''a.png'', RegFile (Some 10))])))
         initial_cache (Some ''POST'') 1000 = (method_not_allowed, initial_cache)"
  using handler_rejects_other_methods
    [of "Some ''POST''" Posix "Some (Directory (Some [(''a.png'', RegFile (Some 10))]))"
        initial_cache 1000]
  by simp

subsection \<open>The cache\<close>

lemma handler_get_status: "status (fst (handler h imagesDirectory c (Some ''GET'') now)) = 200"
  by (simp add: handler_def handler_try_def ok_response_def split: option.splits)

lemma handler_try_scan_throws:
  "cachedImages c = None \<or> \<not> now - cacheTimestamp c < CACHE_DURATION \<Longrightarrow>
   scan root = Inl err \<Longrightarrow>
   handler_try scan (Some root) c (Some ''GET'') now = (error_response err, c)"
  by (auto simp add: handler_try_def)

lemma example_scan_posix: "getImageFiles Posix example_tree [] = [a_png, c_jpg, deep_gif]"
  by (simp add: example_tree_def a_png_def c_jpg_def deep_gif_def image_entry_def
      relativeItemPath_def path_join_def replace_backslashes_def toLowerCase_def
      toLowerChar_def extname_def imageExtensions_def slash_def backslash_def)

text \<open>
  C1. A GET request at time \<open>now\<close> with a cached inventory and
  \<open>now - cacheTimestamp < 30000\<close> is answered with status 200 and exactly the cached
  inventory as \<open>images\<close>, and the cache stays as it was, whatever the filesystem
  holds. Without a cached inventory, or when the difference is 30000 or more, the request
  is answered with status 200 and a result as \<open>images\<close>, this same result is stored
  with the time \<open>now\<close>, and when the images directory exists the result is what
  \<open>getImageFiles\<close> returns for it.
\<close>

theorem handler_cache:
  "(cachedImages c = Some images \<and> now - cacheTimestamp c < 30000 \<longrightarrow>
      handler h imagesDirectory c (Some ''GET'') now =
        (\<lparr> status = 200,
           headers = [(''Cache-Control'', ''public, max-age=30, s-maxage=30'')],
           body = Images images \<rparr>, c))
   \<and> (cachedImages c = None \<or> \<not> now - cacheTimestamp c < 30000 \<longrightarrow>
        (\<exists>result.
           handler h imagesDirectory c (Some ''GET'') now =
             (\<lparr> status = 200,
                headers = [(''Cache-Control'', ''public, max-age=30, s-maxage=30'')],
                body = Images result \<rparr>,
              \<lparr> cachedImages = Some result, cacheTimestamp = now \<rparr>)
           \<and> (\<forall>root. imagesDirectory = Some root \<longrightarrow> result = getImageFiles h root [])))"
  by (cases imagesDirectory)
     (auto simp add: handler_def handler_try_def ok_response_def CACHE_DURATION_def)

theorem handler_cache_witness:
  "(cachedImages \<lparr> cachedImages = Some [a_png], cacheTimestamp = 1000 \<rparr> = Some [a_png]
    \<and> 1000 + 29999 - cacheTimestamp \<lparr> cachedImages = Some [a_png], cacheTimestamp = 1000 \<rparr>
      < 30000
    \<and> handler Posix (Some example_tree)
        \<lparr> cachedImages = Some [a_png], cacheTimestamp = 1000 \<rparr> (Some ''GET'') (1000 + 29999)
      = (\<lparr> status = 200,
           headers = [(''Cache-Control'', ''public, max-age=30, s-maxage=30'')],
           body = Images [a_png] \<rparr>,
         \<lparr> cachedImages = Some [a_png], cacheTimestamp = 1000 \<rparr>))
   \<and> (\<not> 1000 + 30000 - cacheTimestamp \<lparr> cachedImages = Some [a_png], cacheTimestamp = 1000 \<rparr>
      < 30000
    \<and> handler Posix (Some example_tree)
           \<lparr> cachedImages = Some [a_png], cacheTimestamp = 1000 \<rparr> (Some ''GET'') (1000 + 30000)
         = (\<lparr> status = 200,
              headers = [(''Cache-Control'', ''public, max-age=30, s-maxage=30'')],
              body = Images [a_png, c_jpg, deep_gif] \<rparr>,
            \<lparr> cachedImages = Some [a_png, c_jpg, deep_gif], cacheTimestamp = 1000 + 30000 \<rparr>))"
  using handler_cache
      [of "\<lparr> cachedImages = Some [a_png], cacheTimestamp = 1000 \<rparr>" "[a_png]" "1000 + 29999"
          Posix "Some example_tree"]
    handler_cache
      [of "\<lparr> cachedImages = Some [a_png], cacheTimestamp = 1000 \<rparr>" "[a_png]" "1000 + 30000"
          Posix "Some example_tree"]
  by (auto simp add: example_scan_posix)

lemma cache_freshness_two_queries:
  assumes first: "handler h dir1 c (Some ''GET'') t1 = (r1, c1)"
    and miss: "cachedImages c = None \<or> \<not> t1 - cacheTimestamp c < CACHE_DURATION"
    and soon: "t2 - t1 < CACHE_DURATION"
  shows "handler h dir2 c1 (Some ''GET'') t2 = (r1, c1)"
proof -
  obtain result where
    "handler h dir1 c (Some ''GET'') t1 =
       (ok_response result, \<lparr> cachedImages = Some result, cacheTimestamp = t1 \<rparr>)"
    using miss by (cases dir1) (auto simp add: handler_def handler_try_def)
  with first have "r1 = ok_response result"
    "c1 = \<lparr> cachedImages = Some result, cacheTimestamp = t1 \<rparr>" by simp_all
  with soon show ?thesis by (simp add: handler_def handler_try_def)
qed

text \<open>
  C6. When the images directory does not exist and the cache is not fresh, a GET request
  is answered with status 200 and the empty list as \<open>images\<close>, and the empty list is
  stored with the time \<open>now\<close>. Every later GET request less than 30000 milliseconds
  after \<open>now\<close> gets the same answer and leaves the same cache, whatever the filesystem
  holds then.
\<close>

theorem handler_missing_root:
  "cachedImages c = None \<or> \<not> now - cacheTimestamp c < 30000 \<Longrightarrow>
     handler h None c (Some ''GET'') now =
       (\<lparr> status = 200,
          headers = [(''Cache-Control'', ''public, max-age=30, s-maxage=30'')],
          body = Images [] \<rparr>,
        \<lparr> cachedImages = Some [], cacheTimestamp = now \<rparr>)
     \<and> (\<forall>h' imagesDirectory' now'. now' - now < 30000 \<longrightarrow>
          handler h' imagesDirectory' \<lparr> cachedImages = Some [], cacheTimestamp = now \<rparr>
            (Some ''GET'') now'
          = (\<lparr> status = 200,
               headers = [(''Cache-Control'', ''public, max-age=30, s-maxage=30'')],
               body = Images [] \<rparr>,
             \<lparr> cachedImages = Some [], cacheTimestamp = now \<rparr>))"
  by (auto simp add: handler_def handler_try_def ok_response_def CACHE_DURATION_def)

theorem handler_missing_root_witness:
  "(cachedImages initial_cache = None \<or> \<not> 5000 - cacheTimestamp initial_cache < 30000)
   \<and> handler Posix None initial_cache (Some ''GET'') 5000 =
       (\<lparr> status = 200,
          headers = [(''Cache-Control'', ''public, max-age=30, s-maxage=30'')],
          body = Images [] \<rparr>,
        \<lparr> cachedImages = Some [], cacheTimestamp = 5000 \<rparr>)
   \<and> (6000::int) - 5000 < 30000
   \<and> handler Posix (Some example_tree) \<lparr> cachedImages = Some [], cacheTimestamp = 5000 \<rparr>
        (Some ''GET'') 6000
      = (\<lparr> status = 200,
           headers = [(''Cache-Control'', ''public, max-age=30, s-maxage=30'')],
           body = Images [] \<rparr>,
         \<lparr> cachedImages = Some [], cacheTimestamp = 5000 \<rparr>)"
  using handler_missing_root [of initial_cache 5000 Posix]
  by (simp add: initial_cache_def)

text \<open>
  C7. The images directory exists and \<open>readdirSync\<close> throws on it; the cache holds an
  inventory that is no longer fresh. \<open>getImageFiles\<close> catches the exception and returns
  the empty list, so the request is answered with status 200 and the empty inventory,
  and the cached inventory is replaced by the empty one with the new time. The
  \<open>catch\<close> branch of the handler (lemma \<open>handler_try_scan_throws\<close>) is not taken.
\<close>

theorem handler_unreadable_root:
  "handler Posix (Some (Directory None)) \<lparr> cachedImages = Some [a_png], cacheTimestamp = 0 \<rparr>
       (Some ''GET'') 100000
     = (ok_response [], \<lparr> cachedImages = Some [], cacheTimestamp = 100000 \<rparr>)"
  by (simp add: handler_def handler_try_def CACHE_DURATION_def)

subsection \<open>Entries the scanner passes over\<close>

lemma scan_items_without_special:
  "scan_items h rel (pre @ (n, Special) # post) = scan_items h rel (pre @ post)"
proof (induction pre)
  case Nil
  show ?case by simp
next
  case (Cons e pre)
  obtain m node where e: "e = (m, node)" by (cases e)
  show ?case
    using Cons.IH by (cases node) (simp_all add: e split: option.splits)
qed

lemma scan_items_without_unreadable:
  "scan_items h rel (pre @ (n, Directory None) # post) = scan_items h rel (pre @ post)"
proof (induction pre)
  case Nil
  show ?case by simp
next
  case (Cons e pre)
  obtain m node where e: "e = (m, node)" by (cases e)
  show ?case
    using Cons.IH by (cases node) (simp_all add: e split: option.splits)
qed

lemma scan_without_unreadable:
  "getImageFiles h (without_unreadable node) rel = getImageFiles h node rel"
  "scan_items h rel (without_unreadable_listing items) = scan_items h rel items"
proof (induction h node rel and h rel items rule: getImageFiles_scan_items.induct)
  case (6 h rel n r rest)
  then show ?case by (cases r) simp_all
next
  case (7 h rel n st rest)
  then show ?case by (cases st) simp_all
qed simp_all

text \<open>
  C10. An entry that is neither a regular file nor a directory adds no descriptor,
  whatever its name is: the scan of a listing that holds such an entry anywhere is the
  scan of the listing without it. The entry has no listing of its own, so nothing is
  visited below it.
\<close>

theorem special_entries_omitted:
  "scan_items h relativePath (pre @ (n, Special) # post) = scan_items h relativePath (pre @ post)
   \<and> getImageFiles h (Directory (Some (pre @ (n, Special) # post))) relativePath
       = getImageFiles h (Directory (Some (pre @ post))) relativePath
   \<and> getImageFiles h Special relativePath = []"
  by (simp add: scan_items_without_special)

theorem special_entries_omitted_witness:
  "scan_items Posix []
     ([(''a.png'', RegFile (Some 10))] @ (''link.png'', Special) # [(''c.jpg'', RegFile (Some 20))])
   = scan_items Posix [] ([(''a.png'', RegFile (Some 10))] @ [(''c.jpg'', RegFile (Some 20))])
   \<and> map name (scan_items Posix []
       [(''a.png'', RegFile (Some 10)), (''link.png'', Special), (''c.jpg'', RegFile (Some 20))])
     = [''a.png'', ''c.jpg'']"
  using special_entries_omitted
    [of Posix "[]" "[(''a.png'', RegFile (Some 10))]" "''link.png''"
        "[(''c.jpg'', RegFile (Some 20))]"]
  by (simp add: toLowerCase_def toLowerChar_def extname_def imageExtensions_def
      image_entry_def)

text \<open>
  C5. A subdirectory whose \<open>readdirSync\<close> throws yields the empty list; the scan of the
  listing that holds it is the scan of the listing without it, so every other entry
  contributes what it contributes otherwise; the same holds for unreadable
  subdirectories at any depth of a tree. The request that runs such a scan is answered
  with status 200.
\<close>

theorem unreadable_subdirectory_isolated:
  "getImageFiles h (Directory None) relativePath = []
   \<and> scan_items h relativePath (pre @ (n, Directory None) # post)
       = scan_items h relativePath (pre @ post)
   \<and> getImageFiles h node relativePath = getImageFiles h (without_unreadable node) relativePath
   \<and> status (fst (handler h (Some (Directory (Some (pre @ (n, Directory None) # post)))) c
        (Some ''GET'') now)) = 200"
  by (simp add: scan_items_without_unreadable scan_without_unreadable(1)
      handler_def handler_try_def ok_response_def)

theorem unreadable_subdirectory_isolated_witness:
  "scan_items Posix []
     ([(''a.png'', RegFile (Some 10))] @ (''locked'', Directory None)
        # [(''b'', Directory (Some [(''c.jpg'', RegFile (Some 20))]))])
   = scan_items Posix []
       ([(''a.png'', RegFile (Some 10))] @ [(''b'', Directory (Some [(''c.jpg'', RegFile (Some 20))]))])
   \<and> map path (scan_items Posix []
       [(''a.png'', RegFile (Some 10)), (''locked'', Directory None),
        (''b'', Directory (Some [(''c.jpg'', RegFile (Some 20))]))])
     = [''a.png'', ''b/c.jpg'']"
  using unreadable_subdirectory_isolated
    [of Posix "[]" "[(''a.png'', RegFile (Some 10))]" "''locked''"
        "[(''b'', Directory (Some [(''c.jpg'', RegFile (Some 20))]))]" Special initial_cache 0]
  by (simp add: toLowerCase_def toLowerChar_def extname_def imageExtensions_def
      image_entry_def relativeItemPath_def path_join_def slash_def)

subsection \<open>The extension filter\<close>

lemma toLowerChar_idem: "toLowerChar (toLowerChar c) = toLowerChar c"
  by (simp add: toLowerChar_def split: option.splits)

lemma imageExtensions_lower: "e \<in> set imageExtensions \<Longrightarrow> toLowerCase e = e"
  by (auto simp add: imageExtensions_def toLowerCase_def toLowerChar_def)

lemma has_image_extension_iff:
  "has_image_extension n \<longleftrightarrow> toLowerCase (extname n) \<in> set imageExtensions"
proof
  assume "has_image_extension n"
  then obtain e where e: "e \<in> set imageExtensions" "toLowerCase (extname n) = toLowerCase e"
    by (auto simp add: has_image_extension_def list_ex_iff equal_ignoring_case_def)
  then show "toLowerCase (extname n) \<in> set imageExtensions"
    by (simp add: imageExtensions_lower)
next
  assume a: "toLowerCase (extname n) \<in> set imageExtensions"
  have "toLowerCase (toLowerCase (extname n)) = toLowerCase (extname n)"
    by (simp add: toLowerCase_def toLowerChar_idem)
  with a show "has_image_extension n"
    unfolding has_image_extension_def list_ex_iff equal_ignoring_case_def
    by metis
qed

text \<open>
  C3. A directory lists \<open>a.png\<close>, whose \<open>statSync\<close> throws, then \<open>b.png\<close> of
  5 bytes and a folder \<open>sub\<close> that holds \<open>c.jpg\<close>. The throw leaves the \<open>for\<close>
  loop of the directory, so the scan returns no descriptor at all, although \<open>b.png\<close>
  and \<open>sub/c.jpg\<close> are readable files with allow-listed extensions. The same listing
  without \<open>a.png\<close> yields both.
\<close>

theorem stat_failure_ends_directory_loop:
  "extname ''b.png'' = ''.png'' \<and> extname ''c.jpg'' = ''.jpg''
   \<and> getImageFiles Posix
        (Directory (Some
           [(''a.png'', RegFile None),
            (''b.png'', RegFile (Some 5)),
            (''sub'', Directory (Some [(''c.jpg'', RegFile (Some 20))]))])) [] = []
   \<and> map path (getImageFiles Posix
        (Directory (Some
           [(''b.png'', RegFile (Some 5)),
            (''sub'', Directory (Some [(''c.jpg'', RegFile (Some 20))]))])) [])
       = [''b.png'', ''sub/c.jpg'']"
  by (simp add: toLowerCase_def toLowerChar_def extname_def imageExtensions_def
      image_entry_def relativeItemPath_def path_join_def slash_def)

subsection \<open>Paths and locators\<close>

lemma url_of_path:
  "d \<in> set (getImageFiles h node rel) \<Longrightarrow> url d = ''/images/'' @ replace_backslashes (path d)"
  "d \<in> set (scan_items h rel items) \<Longrightarrow> url d = ''/images/'' @ replace_backslashes (path d)"
  by (induction h node rel and h rel items rule: getImageFiles_scan_items.induct)
     (auto simp add: image_entry_def split: if_splits option.splits)

lemma no_backslash_replaced: "backslash \<notin> set (replace_backslashes s)"
  by (auto simp add: replace_backslashes_def slash_def backslash_def)

lemma replace_backslashes_id: "backslash \<notin> set s \<Longrightarrow> replace_backslashes s = s"
  by (induction s) (auto simp add: replace_backslashes_def)

lemma join_names_snoc: "ds \<noteq> [] \<Longrightarrow> join_names h (ds @ [n]) = join_names h ds @ sep h # n"
  by (induction h ds rule: join_names.induct) auto

lemma join_names_Nil_iff: "\<forall>n\<in>set ds. n \<noteq> [] \<Longrightarrow> join_names h ds = [] \<longleftrightarrow> ds = []"
  by (induction h ds rule: join_names.induct) auto

lemma relativeItemPath_join:
  "\<forall>m\<in>set ds. m \<noteq> [] \<Longrightarrow> relativeItemPath h (join_names h ds) n = join_names h (ds @ [n])"
  by (cases "ds = []")
     (simp_all add: relativeItemPath_def path_join_def join_names_snoc join_names_Nil_iff)

lemma image_entry_expected:
  "\<forall>m\<in>set ds. m \<noteq> [] \<Longrightarrow>
   image_entry h (join_names h ds) n sz
     = expected_descriptor h \<lparr> folder = ds, base = n, bytes = sz \<rparr>"
  by (simp add: image_entry_def expected_descriptor_def relativeItemPath_join join_names_Nil_iff)

lemma join_names_join_with:
  "join_names h ns = join_with (case h of Posix \<Rightarrow> CHR ''/'' | Win32 \<Rightarrow> CHR 0x5C) ns"
  by (induction h ns rule: join_names.induct)
     (simp_all add: slash_def backslash_def split: host.splits)

lemma scan_sound:
  "\<And>ds. rel = join_names h ds \<Longrightarrow> \<forall>m\<in>set ds. m \<noteq> [] \<Longrightarrow> valid_names h node \<Longrightarrow>
     d \<in> set (getImageFiles h node rel) \<Longrightarrow>
     \<exists>f\<in>set (files_of ds node). has_image_extension (base f) \<and> d = expected_descriptor h f"
  "\<And>ds. rel = join_names h ds \<Longrightarrow> \<forall>m\<in>set ds. m \<noteq> [] \<Longrightarrow> valid_listing h items \<Longrightarrow>
     d \<in> set (scan_items h rel items) \<Longrightarrow>
     \<exists>f\<in>set (files_of_listing ds items). has_image_extension (base f) \<and> d = expected_descriptor h f"
proof (induction h node rel and h rel items rule: getImageFiles_scan_items.induct)
  case (6 h rel n r rest)
  have n: "n \<noteq> []" using "6.prems"(3) by (simp add: valid_name_def)
  have rp: "relativeItemPath h rel n = join_names h (ds @ [n])"
    using "6.prems"(1,2) by (simp add: relativeItemPath_join)
  from "6.prems"(4) consider
    (sub) "d \<in> set (getImageFiles h (Directory r) (relativeItemPath h rel n))"
    | (rest) "d \<in> set (scan_items h rel rest)" by auto
  then show ?case
  proof cases
    case sub
    have "\<exists>f\<in>set (files_of (ds @ [n]) (Directory r)).
        has_image_extension (base f) \<and> d = expected_descriptor h f"
      using "6.IH"(1)[OF rp _ _ sub] "6.prems"(2,3) n by simp
    then show ?thesis by auto
  next
    case rest
    have "\<exists>f\<in>set (files_of_listing ds rest).
        has_image_extension (base f) \<and> d = expected_descriptor h f"
      using "6.IH"(2)[OF "6.prems"(1,2) _ rest] "6.prems"(3) by simp
    then show ?thesis by auto
  qed
next
  case (7 h rel n st rest)
  show ?case
  proof (cases "toLowerCase (extname n) \<in> set imageExtensions")
    case True
    show ?thesis
    proof (cases st)
      case None
      then show ?thesis using "7.prems"(4) True by simp
    next
      case (Some sz)
      from "7.prems"(4) True Some consider
        (head) "d = image_entry h rel n sz" | (rest) "d \<in> set (scan_items h rel rest)" by auto
      then show ?thesis
      proof cases
        case head
        then have "d = expected_descriptor h \<lparr> folder = ds, base = n, bytes = sz \<rparr>"
          using "7.prems"(1,2) by (simp add: image_entry_expected)
        then show ?thesis using True Some by (simp add: has_image_extension_iff)
      next
        case rest
        have "\<exists>f\<in>set (files_of_listing ds rest).
            has_image_extension (base f) \<and> d = expected_descriptor h f"
          using "7.IH"(1)[OF True Some "7.prems"(1,2) _ rest] "7.prems"(3) by simp
        then show ?thesis using Some by auto
      qed
    qed
  next
    case False
    then have r: "d \<in> set (scan_items h rel rest)" using "7.prems"(4) by simp
    have "\<exists>f\<in>set (files_of_listing ds rest).
        has_image_extension (base f) \<and> d = expected_descriptor h f"
      using "7.IH"(2)[OF False "7.prems"(1,2) _ r] "7.prems"(3) by simp
    then show ?thesis by (cases st) auto
  qed
qed simp_all

text \<open>
  C2, as the claim states it, fails on a Windows host: \<open>path.join\<close> puts a backslash
  between \<open>b\<close> and \<open>c.jpg\<close>, and the \<open>path\<close> field is stored as joined.
\<close>

theorem path_field_backslash_on_windows:
  "map path (getImageFiles Win32 example_tree [])
     = [''a.png'', ''b'' @ CHR 0x5C # ''c.jpg'',
        ''x'' @ CHR 0x5C # ''y'' @ CHR 0x5C # ''z'' @ CHR 0x5C # ''deep.GIF'']"
  by (simp add: example_tree_def image_entry_def relativeItemPath_def path_join_def
      toLowerCase_def toLowerChar_def extname_def imageExtensions_def backslash_def)

text \<open>
  C2, amended. For every descriptor of a scan, on either host, the \<open>url\<close> is
  \<open>/images/\<close> followed by the \<open>path\<close> field with every backslash replaced by a
  forward slash, and holds no backslash; it is \<open>/images/\<close> followed by the \<open>path\<close>
  field itself when that holds no backslash. The \<open>path\<close> field is not normalised: in
  a tree with valid entry names it is, for a regular file of the tree, the names of its
  folders from the scan root and its own name joined by the separator of the host,
  forward slash on POSIX and backslash on Windows.
\<close>

theorem url_normalised_path_host_separated:
  assumes "d \<in> set (getImageFiles h node [])"
  shows "url d = ''/images/'' @ map (\<lambda>c. if c = CHR 0x5C then CHR ''/'' else c) (path d)
    \<and> CHR 0x5C \<notin> set (url d)
    \<and> (CHR 0x5C \<notin> set (path d) \<longrightarrow> url d = ''/images/'' @ path d)
    \<and> (valid_names h node \<longrightarrow>
          (\<exists>f\<in>set (files_of [] node).
             name d = base f
             \<and> path d = join_with (case h of Posix \<Rightarrow> CHR ''/'' | Win32 \<Rightarrow> CHR 0x5C)
                          (folder f @ [base f])))"
proof -
  have u: "url d = ''/images/'' @ map (\<lambda>c. if c = CHR 0x5C then CHR ''/'' else c) (path d)"
    using url_of_path(1)[OF assms] by (simp add: replace_backslashes_def backslash_def slash_def)
  have nb: "CHR 0x5C \<notin> set (url d)"
    using u by auto
  have id: "url d = ''/images/'' @ path d" if "CHR 0x5C \<notin> set (path d)"
  proof -
    have "map (\<lambda>c. if c = CHR 0x5C then CHR ''/'' else c) (path d) = path d"
      by (rule map_idI) (use that in auto)
    with u show ?thesis by simp
  qed
  have p: "\<exists>f\<in>set (files_of [] node). name d = base f
      \<and> path d = join_with (case h of Posix \<Rightarrow> CHR ''/'' | Win32 \<Rightarrow> CHR 0x5C)
                   (folder f @ [base f])" if v: "valid_names h node"
  proof -
    obtain f where f: "f \<in> set (files_of [] node)" "d = expected_descriptor h f"
      using scan_sound(1)[of "[]" h "[]" node d] v assms by auto
    have "name d = base f \<and> path d = join_names h (folder f @ [base f])"
      using f(2) by (simp add: expected_descriptor_def)
    then show ?thesis using f(1) by (auto simp add: join_names_join_with)
  qed
  show ?thesis using u nb id p by blast
qed

lemma example_scan_win32_member: "c_jpg_win \<in> set (getImageFiles Win32 example_tree [])"
  by (simp add: example_tree_def c_jpg_win_def image_entry_def
      relativeItemPath_def path_join_def replace_backslashes_def toLowerCase_def
      toLowerChar_def extname_def imageExtensions_def slash_def backslash_def)

theorem url_normalised_path_host_separated_witness:
  "(c_jpg \<in> set (getImageFiles Posix example_tree [])
    \<and> valid_names Posix example_tree
    \<and> CHR 0x5C \<notin> set (path c_jpg)
    \<and> url c_jpg = ''/images/'' @ path c_jpg
    \<and> (\<exists>f\<in>set (files_of [] example_tree). name c_jpg = base f
          \<and> path c_jpg = join_with CHR ''/'' (folder f @ [base f])))
   \<and> (c_jpg_win \<in> set (getImageFiles Win32 example_tree [])
    \<and> valid_names Win32 example_tree
    \<and> path c_jpg_win = ''b'' @ CHR 0x5C # ''c.jpg''
    \<and> url c_jpg_win = ''/images/b/c.jpg''
    \<and> CHR 0x5C \<notin> set (url c_jpg_win)
    \<and> (\<exists>f\<in>set (files_of [] example_tree). name c_jpg_win = base f
          \<and> path c_jpg_win = join_with (CHR 0x5C) (folder f @ [base f])))"
proof -
  have m: "c_jpg \<in> set (getImageFiles Posix example_tree [])"
    by (simp add: example_scan_posix)
  have v: "valid_names Posix example_tree"
    by (simp add: example_tree_def valid_name_def slash_def)
  have b: "CHR 0x5C \<notin> set (path c_jpg)"
    by (simp add: c_jpg_def)
  have m': "c_jpg_win \<in> set (getImageFiles Win32 example_tree [])"
    by (rule example_scan_win32_member)
  have v': "valid_names Win32 example_tree"
    by (simp add: example_tree_def valid_name_def slash_def backslash_def)
  have p': "path c_jpg_win = ''b'' @ CHR 0x5C # ''c.jpg''" "url c_jpg_win = ''/images/b/c.jpg''"
    by (simp_all add: c_jpg_win_def)
  have posix: "url c_jpg = ''/images/'' @ path c_jpg
    \<and> (\<exists>f\<in>set (files_of [] example_tree). name c_jpg = base f
          \<and> path c_jpg = join_with CHR ''/'' (folder f @ [base f]))"
    using url_normalised_path_host_separated [OF m] v b by auto
  have win: "CHR 0x5C \<notin> set (url c_jpg_win)
    \<and> (\<exists>f\<in>set (files_of [] example_tree). name c_jpg_win = base f
          \<and> path c_jpg_win = join_with (CHR 0x5C) (folder f @ [base f]))"
    using url_normalised_path_host_separated [OF m'] v' by auto
  show ?thesis using m v b m' v' p' posix win by blast
qed

subsection \<open>Uniqueness of the relative paths\<close>

lemma valid_listing_name:
  "valid_listing h items \<Longrightarrow> n \<in> set (map fst items) \<Longrightarrow> valid_name h n"
  by (induction items) fastforce+

lemma first_component_item:
  assumes "sep h \<notin> set n" and "t = [] \<or> (\<exists>t'. t = sep h # t')"
  shows "first_component h rel (relativeItemPath h rel n @ t) = n"
proof -
  have "drop (if rel = [] then 0 else Suc (length rel)) (relativeItemPath h rel n @ t) = n @ t"
    by (simp add: relativeItemPath_def path_join_def)
  moreover have "takeWhile (\<lambda>c. c \<noteq> sep h) (n @ t) = n @ takeWhile (\<lambda>c. c \<noteq> sep h) t"
    by (rule takeWhile_append2) (use assms(1) in auto)
  moreover have "takeWhile (\<lambda>c. c \<noteq> sep h) t = []"
    using assms(2) by auto
  ultimately show ?thesis by (simp add: first_component_def)
qed

lemma path_shape_rest:
  assumes "\<exists>n t. n \<in> set (map fst rest) \<and> path d = relativeItemPath h rel n @ t
       \<and> (t = [] \<or> (\<exists>t'. t = sep h # t'))"
  shows "\<exists>n t. n \<in> set (map fst (e # rest)) \<and> path d = relativeItemPath h rel n @ t
       \<and> (t = [] \<or> (\<exists>t'. t = sep h # t'))"
proof -
  from assms obtain n t where "n \<in> set (map fst rest)" "path d = relativeItemPath h rel n @ t"
    "t = [] \<or> (\<exists>t'. t = sep h # t')" by blast
  then have "n \<in> set (map fst (e # rest)) \<and> path d = relativeItemPath h rel n @ t
       \<and> (t = [] \<or> (\<exists>t'. t = sep h # t'))" by simp
  then show ?thesis by blast
qed

lemma path_shape_head:
  assumes "path d = relativeItemPath h rel n @ t" and "t = [] \<or> (\<exists>t'. t = sep h # t')"
  shows "\<exists>m t. m \<in> set (map fst ((n, node) # rest)) \<and> path d = relativeItemPath h rel m @ t
       \<and> (t = [] \<or> (\<exists>t'. t = sep h # t'))"
proof -
  have "n \<in> set (map fst ((n, node) # rest)) \<and> path d = relativeItemPath h rel n @ t
       \<and> (t = [] \<or> (\<exists>t'. t = sep h # t'))" using assms by simp
  then show ?thesis by blast
qed

lemma scanned_path_shape:
  "valid_names h node \<Longrightarrow> rel \<noteq> [] \<Longrightarrow> d \<in> set (getImageFiles h node rel) \<Longrightarrow>
     \<exists>t. path d = rel @ sep h # t"
  "valid_listing h items \<Longrightarrow> d \<in> set (scan_items h rel items) \<Longrightarrow>
     \<exists>n t. n \<in> set (map fst items) \<and> path d = relativeItemPath h rel n @ t
       \<and> (t = [] \<or> (\<exists>t'. t = sep h # t'))"
proof (induction h node rel and h rel items rule: getImageFiles_scan_items.induct)
  case (1 h items rel)
  then obtain n t where "path d = relativeItemPath h rel n @ t" by auto
  with \<open>rel \<noteq> []\<close> show ?case by (simp add: relativeItemPath_def path_join_def)
next
  case (6 h rel n r rest)
  have n: "n \<noteq> []" using "6.prems"(1) by (simp add: valid_name_def)
  then have ne: "relativeItemPath h rel n \<noteq> []"
    by (simp add: relativeItemPath_def path_join_def)
  from "6.prems"(2) consider
    (sub) "d \<in> set (getImageFiles h (Directory r) (relativeItemPath h rel n))"
    | (rest) "d \<in> set (scan_items h rel rest)" by auto
  then show ?case
  proof cases
    case sub
    then obtain t where "path d = relativeItemPath h rel n @ sep h # t"
      using "6.IH"(1) "6.prems"(1) ne by auto
    then show ?thesis by (intro path_shape_head) auto
  next
    case rest
    then show ?thesis using "6.IH"(2) "6.prems"(1) by (intro path_shape_rest) simp
  qed
next
  case (7 h rel n st rest)
  show ?case
  proof (cases "toLowerCase (extname n) \<in> set imageExtensions")
    case True
    show ?thesis
    proof (cases st)
      case None
      then show ?thesis using "7.prems"(2) True by simp
    next
      case (Some sz)
      from "7.prems"(2) True Some consider
        (head) "d = image_entry h rel n sz" | (rest) "d \<in> set (scan_items h rel rest)" by auto
      then show ?thesis
      proof cases
        case head
        then have "path d = relativeItemPath h rel n @ []" by (simp add: image_entry_def)
        then show ?thesis by (intro path_shape_head) auto
      next
        case rest
        then show ?thesis using "7.IH"(1)[OF True Some] "7.prems"(1)
          by (intro path_shape_rest) simp
      qed
    qed
  next
    case False
    then have "d \<in> set (scan_items h rel rest)" using "7.prems"(2) by simp
    then show ?thesis using "7.IH"(2)[OF False] "7.prems"(1)
      by (intro path_shape_rest) simp
  qed
next
  case (8 h rel n rest)
  then show ?case by (intro path_shape_rest) simp
qed simp_all

lemma scanned_first_component:
  assumes "valid_listing h items" and "d \<in> set (scan_items h rel items)"
  shows "first_component h rel (path d) \<in> set (map fst items)"
proof -
  obtain n t where nt: "n \<in> set (map fst items)" "path d = relativeItemPath h rel n @ t"
      "t = [] \<or> (\<exists>t'. t = sep h # t')"
    using scanned_path_shape(2)[OF assms] by blast
  have "valid_name h n"
    using valid_listing_name[OF assms(1) nt(1)] .
  then have "sep h \<notin> set n" by (simp add: valid_name_def)
  then show ?thesis using nt first_component_item by simp
qed

lemma scanned_paths_distinct:
  "valid_names h node \<Longrightarrow> distinct_names node \<Longrightarrow>
     distinct (map path (getImageFiles h node rel))"
  "valid_listing h items \<Longrightarrow> distinct_listing items \<Longrightarrow>
     distinct (map path (scan_items h rel items))"
proof (induction h node rel and h rel items rule: getImageFiles_scan_items.induct)
  case (6 h rel n r rest)
  let ?A = "getImageFiles h (Directory r) (relativeItemPath h rel n)"
  let ?B = "scan_items h rel rest"
  have A: "distinct (map path ?A)" using "6.IH"(1) "6.prems" by simp
  have B: "distinct (map path ?B)" using "6.IH"(2) "6.prems" by simp
  have vh: "valid_listing h [(n, Directory r)]" using "6.prems"(1) by simp
  have vr: "valid_listing h rest" using "6.prems"(1) by simp
  have "path a \<noteq> path b" if a: "a \<in> set ?A" and b: "b \<in> set ?B" for a b
  proof
    assume eq: "path a = path b"
    have "a \<in> set (scan_items h rel [(n, Directory r)])" using a by simp
    then have "first_component h rel (path a) = n"
      using scanned_first_component[OF vh] by fastforce
    moreover have "first_component h rel (path b) \<in> set (map fst rest)"
      using scanned_first_component[OF vr b] .
    ultimately show False using eq "6.prems"(2) by simp
  qed
  then have "set (map path ?A) \<inter> set (map path ?B) = {}" by auto
  with A B show ?case by simp
next
  case (7 h rel n st rest)
  show ?case
  proof (cases "toLowerCase (extname n) \<in> set imageExtensions")
    case True
    show ?thesis
    proof (cases st)
      case None
      then show ?thesis using True by simp
    next
      case (Some sz)
      have B: "distinct (map path (scan_items h rel rest))"
        using "7.IH"(1)[OF True Some] "7.prems" by simp
      have vr: "valid_listing h rest" using "7.prems"(1) by simp
      have "sep h \<notin> set n" using "7.prems"(1) by (simp add: valid_name_def)
      then have fc: "first_component h rel (relativeItemPath h rel n) = n"
        using first_component_item[of h n "[]" rel] by simp
      have "path (image_entry h rel n sz) \<noteq> path b"
        if b: "b \<in> set (scan_items h rel rest)" for b
      proof
        assume eq: "path (image_entry h rel n sz) = path b"
        have "first_component h rel (path b) \<in> set (map fst rest)"
          using scanned_first_component[OF vr b] .
        moreover have "first_component h rel (path b) = n"
          using eq fc by (simp add: image_entry_def)
        ultimately show False using "7.prems"(2) by simp
      qed
      then have "path (image_entry h rel n sz) \<notin> set (map path (scan_items h rel rest))"
        by auto
      with B show ?thesis using True Some by simp
    qed
  next
    case False
    then show ?thesis using "7.IH"(2)[OF False] "7.prems" by simp
  qed
qed simp_all

text \<open>
  C9. When every listing of the tree holds valid entry names and no name twice, no two
  descriptors of a scan have the same \<open>path\<close> field.
\<close>

theorem relative_paths_unique:
  "valid_names h node \<Longrightarrow> distinct_names node \<Longrightarrow>
     distinct (map path (getImageFiles h node relativePath))"
  by (rule scanned_paths_distinct(1))

theorem relative_paths_unique_witness:
  "valid_names Posix example_tree \<and> distinct_names example_tree
   \<and> distinct (map path (getImageFiles Posix example_tree []))
   \<and> length (getImageFiles Posix example_tree []) = 3"
proof -
  have v: "valid_names Posix example_tree"
    by (simp add: example_tree_def valid_name_def slash_def)
  have d: "distinct_names example_tree"
    by (simp add: example_tree_def)
  show ?thesis
    using relative_paths_unique [OF v d, of "[]"] v d by (simp add: example_scan_posix)
qed

subsection \<open>Completeness on readable trees\<close>

lemma scan_complete:
  "\<And>ds. rel = join_names h ds \<Longrightarrow> \<forall>m\<in>set ds. m \<noteq> [] \<Longrightarrow> valid_names h node \<Longrightarrow>
     readable node \<Longrightarrow>
     getImageFiles h node rel =
       map (expected_descriptor h)
         (filter (\<lambda>f. has_image_extension (base f)) (files_of ds node))"
  "\<And>ds. rel = join_names h ds \<Longrightarrow> \<forall>m\<in>set ds. m \<noteq> [] \<Longrightarrow> valid_listing h items \<Longrightarrow>
     readable_listing items \<Longrightarrow>
     scan_items h rel items =
       map (expected_descriptor h)
         (filter (\<lambda>f. has_image_extension (base f)) (files_of_listing ds items))"
proof (induction h node rel and h rel items rule: getImageFiles_scan_items.induct)
  case (6 h rel n r rest)
  have n: "n \<noteq> []" using "6.prems"(3) by (simp add: valid_name_def)
  have rp: "relativeItemPath h rel n = join_names h (ds @ [n])"
    using "6.prems"(1,2) by (simp add: relativeItemPath_join)
  have "getImageFiles h (Directory r) (relativeItemPath h rel n) =
      map (expected_descriptor h)
        (filter (\<lambda>f. has_image_extension (base f)) (files_of (ds @ [n]) (Directory r)))"
    using "6.IH"(1)[OF rp] "6.prems" n by simp
  moreover have "scan_items h rel rest =
      map (expected_descriptor h)
        (filter (\<lambda>f. has_image_extension (base f)) (files_of_listing ds rest))"
    using "6.IH"(2)[OF "6.prems"(1,2)] "6.prems" by simp
  ultimately show ?case by simp
next
  case (7 h rel n st rest)
  obtain sz where st: "st = Some sz" using "7.prems"(4) by auto
  show ?case
  proof (cases "toLowerCase (extname n) \<in> set imageExtensions")
    case True
    have "scan_items h rel rest =
      map (expected_descriptor h)
        (filter (\<lambda>f. has_image_extension (base f)) (files_of_listing ds rest))"
      using "7.IH"(1)[OF True st "7.prems"(1,2)] "7.prems" by simp
    then show ?thesis
      using True "7.prems"(1,2) by (simp add: st has_image_extension_iff image_entry_expected)
  next
    case False
    have "scan_items h rel rest =
      map (expected_descriptor h)
        (filter (\<lambda>f. has_image_extension (base f)) (files_of_listing ds rest))"
      using "7.IH"(2)[OF False "7.prems"(1,2)] "7.prems" by simp
    then show ?thesis
      using False by (simp add: st has_image_extension_iff)
  qed
qed simp_all

text \<open>
  C4. For a tree of any depth in which every directory and every file can be read, and
  whose listings hold valid entry names, the scan from the root returns, in the order of
  the traversal, one descriptor for each regular file with an image extension and
  nothing else. The descriptor has the base name of the file as \<open>name\<close>, the names from
  the root down to the file joined by the separator as \<open>path\<close>, the joined names of the
  folders above the file (or the root label when there is none) as \<open>directory\<close>, and
  the byte length as \<open>size\<close>.
\<close>

theorem scan_readable_tree:
  "valid_names h node \<Longrightarrow> readable node \<Longrightarrow>
     getImageFiles h node [] =
       map (expected_descriptor h)
         (filter (\<lambda>f. has_image_extension (base f)) (files_of [] node))"
  using scan_complete(1) [of "[]" h "[]" node] by simp

theorem scan_readable_tree_witness:
  "valid_names Posix example_tree \<and> readable example_tree
   \<and> getImageFiles Posix example_tree [] =
       map (expected_descriptor Posix)
         [\<lparr> folder = [], base = ''a.png'', bytes = 10 \<rparr>,
          \<lparr> folder = [''b''], base = ''c.jpg'', bytes = 20 \<rparr>,
          \<lparr> folder = [''x'', ''y'', ''z''], base = ''deep.GIF'', bytes = 30 \<rparr>]
   \<and> getImageFiles Posix example_tree [] = [a_png, c_jpg, deep_gif]"
proof -
  have v: "valid_names Posix example_tree"
    by (simp add: example_tree_def valid_name_def slash_def)
  have r: "readable example_tree"
    by (simp add: example_tree_def)
  have f: "filter (\<lambda>f. has_image_extension (base f)) (files_of [] example_tree) =
         [\<lparr> folder = [], base = ''a.png'', bytes = 10 \<rparr>,
          \<lparr> folder = [''b''], base = ''c.jpg'', bytes = 20 \<rparr>,
          \<lparr> folder = [''x'', ''y'', ''z''], base = ''deep.GIF'', bytes = 30 \<rparr>]"
    by (simp add: example_tree_def has_image_extension_iff toLowerCase_def toLowerChar_def
        extname_def imageExtensions_def)
  show ?thesis
    using scan_readable_tree [OF v r] v r f by (simp add: example_scan_posix)
qed

end
